theory Spec2Isabelle
  imports Complex_Main
begin

section \<open>The collaborators of \<open>main.py\<close>\<close>

text \<open>
  \<open>main.py\<close> drives a game of the OpenSpiel engine through the methods of a state
  object and of two bot objects. The engine and the bots are not part of the file; they
  are parameters of the model. Engine methods are read as total, pure functions of the
  state value (\<open>apply_action\<close> returns the mutated state); floats are read as reals.
\<close>

datatype exn =
    SystemExit string
  | ValueError string
  | EOFError
  | KeyboardInterrupt
  | IndexError
  | AssertionError

record ('s, 'a) game =
  num_players :: int
  new_initial_state :: 's
  is_terminal :: "'s \<Rightarrow> bool"
  current_player :: "'s \<Rightarrow> int"
  is_chance_node :: "'s \<Rightarrow> bool"
  is_simultaneous_node :: "'s \<Rightarrow> bool"
  legal_actions :: "'s \<Rightarrow> 'a list"
  action_to_string :: "'s \<Rightarrow> int \<Rightarrow> 'a \<Rightarrow> string"
  chance_outcomes :: "'s \<Rightarrow> ('a \<times> real) list"
  apply_action :: "'s \<Rightarrow> 'a \<Rightarrow> 's"
  returns :: "'s \<Rightarrow> real list"

text \<open>
  A bot that is not a \<open>HumanBot\<close> is an object with a memory \<open>mem\<close> and the three
  methods \<open>step\<close>, \<open>inform_action\<close> and \<open>restart\<close>, each a function of the memory.
  \<open>isinstance(bot, human.HumanBot)\<close> is the test for the constructor \<open>HumanBot\<close>, whose
  \<open>inform_action\<close> and \<open>restart\<close> are the empty methods inherited from the bot base class.
\<close>

record ('s, 'a, 'b) agent =
  step :: "'b \<Rightarrow> 's \<Rightarrow> 'a \<times> 'b"
  inform_action :: "'b \<Rightarrow> 's \<Rightarrow> int \<Rightarrow> 'a \<Rightarrow> 'b"
  restart :: "'b \<Rightarrow> 'b"
  mem :: 'b

datatype ('s, 'a, 'b) bot = HumanBot | Agent "('s, 'a, 'b) agent"

fun bot_inform :: "('s, 'a, 'b) bot \<Rightarrow> 's \<Rightarrow> int \<Rightarrow> 'a \<Rightarrow> ('s, 'a, 'b) bot" where
  "bot_inform HumanBot s p a = HumanBot"
| "bot_inform (Agent ag) s p a = Agent (ag\<lparr>mem := inform_action ag (mem ag) s p a\<rparr>)"

fun bot_restart :: "('s, 'a, 'b) bot \<Rightarrow> ('s, 'a, 'b) bot" where
  "bot_restart HumanBot = HumanBot"
| "bot_restart (Agent ag) = Agent (ag\<lparr>mem := restart ag (mem ag)\<rparr>)"

subsection \<open>Pseudorandom sources\<close>

text \<open>
  A generator is the sequence of raw outputs it will produce and the position reached.
  \<open>random_sample\<close> is numpy's uniform double: a 53-bit integer over \<open>2^53\<close>, so a value
  of the half-open unit interval.
\<close>

record rng =
  draws :: "nat \<Rightarrow> nat"
  pos :: nat

definition random_sample :: "rng \<Rightarrow> real \<times> rng" where
  "random_sample r =
     (real (draws r (pos r) mod 2 ^ 53) / 2 ^ 53, r\<lparr>pos := Suc (pos r)\<rparr>)"

fun cumsum :: "real \<Rightarrow> real list \<Rightarrow> real list" where
  "cumsum acc [] = []"
| "cumsum acc (p # ps) = (acc + p) # cumsum (acc + p) ps"

text \<open>
  \<open>np.random.choice(a, p=p)\<close> of the numpy library, one sample with replacement: \<open>p\<close> is
  validated (no negative entry, sum 1 up to \<open>sqrt eps = 2^-26\<close>), the cumulative
  distribution is normalised by its last entry, one uniform sample \<open>u\<close> is drawn, and
  the index is \<open>searchsorted(cdf, u, side='right')\<close>: the number of entries \<open>\<le> u\<close>.
\<close>

definition np_random_choice :: "rng \<Rightarrow> 'a list \<Rightarrow> real list \<Rightarrow> exn + ('a \<times> rng)" where
  "np_random_choice r as ps =
     (if as = [] then Inl (ValueError ''a cannot be empty unless no samples are taken'')
      else if length ps \<noteq> length as then Inl (ValueError ''a and p must have same size'')
      else if list_ex (\<lambda>p. p < 0) ps then Inl (ValueError ''probabilities are not non-negative'')
      else if \<bar>sum_list ps - 1\<bar> > 1 / 2 ^ 26 then Inl (ValueError ''probabilities do not sum to 1'')
      else
        (let cdf = cumsum 0 ps;
             cdf' = map (\<lambda>c. c / last cdf) cdf;
             (u, r') = random_sample r;
             idx = length (filter (\<lambda>c. c \<le> u) cdf')
         in if idx < length as then Inr (as ! idx, r') else Inl IndexError))"

text \<open>
  \<open>random.choice(seq)\<close> of Python's \<open>random\<close> module: \<open>IndexError\<close> on an empty sequence,
  otherwise the element at an index below \<open>len(seq)\<close> obtained from the generator (the
  library's rejection sampling is abstracted to a remainder).
\<close>

definition random_choice :: "rng \<Rightarrow> 'a list \<Rightarrow> exn + ('a \<times> rng)" where
  "random_choice r xs =
     (if xs = [] then Inl IndexError
      else Inr (xs ! (draws r (pos r) mod length xs), r\<lparr>pos := Suc (pos r)\<rparr>))"

subsection \<open>The world a game runs in\<close>

text \<open>
  Standard input is the list of what the user will do at the successive prompts: type a
  line, or interrupt; at the end of the list the stream is closed.
\<close>

datatype stdin_event = Line string | Interrupt

text \<open>
  \<open>calls\<close> is a log of the calls made on the collaborators, in program order:
  \<open>Classify s\<close> for the test \<open>state.is_chance_node()\<close> that opens an iteration of the
  main loop, \<open>Inform i s p a\<close> for \<open>bots[i].inform_action(state, p, a)\<close> with \<open>s\<close> the
  value of the state object at the call, \<open>Apply s a\<close> for \<open>state.apply_action(a)\<close>
  with \<open>s\<close> the value before the mutation.
\<close>

datatype ('s, 'a) event =
    Classify 's
  | Inform nat 's int 'a
  | Apply 's 'a

record ('s, 'a, 'b) world =
  bots :: "('s, 'a, 'b) bot list"
  stdin :: "stdin_event list"
  np_global :: rng
  py_global :: rng
  calls :: "('s, 'a) event list"

section \<open>\<open>_get_action\<close>\<close>

definition get_action :: "('s, 'a) game \<Rightarrow> 's \<Rightarrow> string \<Rightarrow> 'a option" where
  "get_action g s action_str =
     find (\<lambda>action. action_str = action_to_string g s (current_player g s) action)
       (legal_actions g s)"

section \<open>\<open>_play_game\<close>\<close>

text \<open>
  What the functions print (\<open>_print_chess_board\<close>, the line of returns) is left out: it
  reads the state through the same pure methods and changes nothing.
\<close>

text \<open>
  The loop \<open>for i, bot in enumerate(bots)\<close> from index \<open>i\<close>, skipping the indices for
  which \<open>skip\<close> holds; returns the bots and the calls made.
\<close>

fun inform_from ::
  "nat \<Rightarrow> (nat \<Rightarrow> bool) \<Rightarrow> 's \<Rightarrow> int \<Rightarrow> 'a \<Rightarrow> ('s, 'a, 'b) bot list
     \<Rightarrow> ('s, 'a, 'b) bot list \<times> ('s, 'a) event list" where
  "inform_from i skip s p a [] = ([], [])"
| "inform_from i skip s p a (b # bs) =
     (let (bs', evs) = inform_from (Suc i) skip s p a bs
      in if skip i then (b # bs', evs)
         else (bot_inform b s p a # bs', Inform i s p a # evs))"

definition inform_bots ::
  "(nat \<Rightarrow> bool) \<Rightarrow> 's \<Rightarrow> int \<Rightarrow> 'a \<Rightarrow> ('s, 'a, 'b) world \<Rightarrow> ('s, 'a, 'b) world" where
  "inform_bots skip s p a w =
     (let (bs', evs) = inform_from 0 skip s p a (bots w)
      in w\<lparr>bots := bs', calls := calls w @ evs\<rparr>)"

definition log_call :: "('s, 'a) event \<Rightarrow> ('s, 'a, 'b) world \<Rightarrow> ('s, 'a, 'b) world" where
  "log_call e w = w\<lparr>calls := calls w @ [e]\<rparr>"

text \<open>Lines 126 to 135: the forced opening.\<close>

fun play_opening ::
  "('s, 'a) game \<Rightarrow> string list \<Rightarrow> 's \<Rightarrow> string list \<Rightarrow> ('s, 'a, 'b) world
     \<Rightarrow> (exn + 's \<times> string list) \<times> ('s, 'a, 'b) world" where
  "play_opening g [] s history w = (Inr (s, history), w)"
| "play_opening g (action_str # rest) s history w =
     (case get_action g s action_str of
        None \<Rightarrow> (Inl (SystemExit (''Invalid action: '' @ action_str)), w)
      | Some action \<Rightarrow>
          play_opening g rest (apply_action g s action) (history @ [action_str])
            (log_call (Apply s action)
               (inform_bots (\<lambda>i. False) s (current_player g s) action w)))"

text \<open>Lines 139 to 146: a chance node.\<close>

definition chance_branch ::
  "('s, 'a) game \<Rightarrow> 's \<Rightarrow> ('s, 'a, 'b) world
     \<Rightarrow> (exn + 'a \<times> string) \<times> ('s, 'a, 'b) world" where
  "chance_branch g s w =
     (let outcomes = chance_outcomes g s in
      if outcomes = [] then
        (Inl (ValueError ''not enough values to unpack (expected 2, got 0)''), w)
      else
        (case np_random_choice (np_global w) (map fst outcomes) (map snd outcomes) of
           Inl e \<Rightarrow> (Inl e, w)
         | Inr (action, r') \<Rightarrow>
             (Inr (action, action_to_string g s (current_player g s) action),
              w\<lparr>np_global := r'\<rparr>)))"

text \<open>Python's \<open>xs[i]\<close>: a negative index counts from the end.\<close>

definition py_index :: "nat \<Rightarrow> int \<Rightarrow> nat option" where
  "py_index n i =
     (if 0 \<le> i \<and> i < int n then Some (nat i)
      else if - int n \<le> i \<and> i < 0 then Some (nat (int n + i))
      else None)"

text \<open>Lines 150 to 160: a decision of the bot at the seat to move.\<close>

definition decision_branch ::
  "('s, 'a) game \<Rightarrow> 's \<Rightarrow> ('s, 'a, 'b) world
     \<Rightarrow> (exn + 'a \<times> string) \<times> ('s, 'a, 'b) world" where
  "decision_branch g s w =
     (case py_index (length (bots w)) (current_player g s) of
        None \<Rightarrow> (Inl IndexError, w)
      | Some i \<Rightarrow>
          (case bots w ! i of
             HumanBot \<Rightarrow>
               (case stdin w of
                  [] \<Rightarrow> (Inl EOFError, w)
                | Interrupt # rest \<Rightarrow> (Inl KeyboardInterrupt, w\<lparr>stdin := rest\<rparr>)
                | Line action_str # rest \<Rightarrow>
                    (case get_action g s action_str of
                       None \<Rightarrow>
                         (Inl (SystemExit (''Invalid move: '' @ action_str)),
                          w\<lparr>stdin := rest\<rparr>)
                     | Some action \<Rightarrow> (Inr (action, action_str), w\<lparr>stdin := rest\<rparr>)))
           | Agent ag \<Rightarrow>
               (let (action, m') = step ag (mem ag) s
                in (Inr (action, action_to_string g s (current_player g s) action),
                    w\<lparr>bots := (bots w)[i := Agent (ag\<lparr>mem := m'\<rparr>)]\<rparr>))))"

text \<open>
  Lines 137 to 168: the main loop. It may run forever, so it takes fuel: one unit for
  each iteration, and the result \<open>None\<close> when the fuel is used up at a state that is
  not terminal.
\<close>

fun play_loop ::
  "nat \<Rightarrow> ('s, 'a) game \<Rightarrow> 's \<Rightarrow> string list \<Rightarrow> ('s, 'a, 'b) world
     \<Rightarrow> (exn + 's \<times> string list) option \<times> ('s, 'a, 'b) world" where
  "play_loop 0 g s history w =
     (if is_terminal g s then (Some (Inr (s, history)), w) else (None, w))"
| "play_loop (Suc fuel) g s history w =
     (if is_terminal g s then (Some (Inr (s, history)), w)
      else
        (let current_player = current_player g s;
             w1 = log_call (Classify s) w
         in case (if is_chance_node g s then chance_branch g s w1
                  else if is_simultaneous_node g s then
                    (Inl (ValueError ''Game cannot have simultaneous nodes.''), w1)
                  else decision_branch g s w1) of
              (Inl e, w2) \<Rightarrow> (Some (Inl e), w2)
            | (Inr (action, action_str), w2) \<Rightarrow>
                play_loop fuel g (apply_action g s action) (history @ [action_str])
                  (log_call (Apply s action)
                     (inform_bots (\<lambda>i. int i = current_player) s current_player action w2))))"

text \<open>Lines 121 to 124: the flag \<open>random_first\<close>.\<close>

definition first_actions ::
  "('s, 'a) game \<Rightarrow> bool \<Rightarrow> string list \<Rightarrow> ('s, 'a, 'b) world
     \<Rightarrow> (exn + string list) \<times> ('s, 'a, 'b) world" where
  "first_actions g random_first initial_actions w =
     (let s = new_initial_state g in
      if random_first then
        (if initial_actions \<noteq> [] then (Inl AssertionError, w)
         else
           (case random_choice (py_global w) (legal_actions g s) of
              Inl e \<Rightarrow> (Inl e, w)
            | Inr (a, r') \<Rightarrow>
                (Inr [action_to_string g s (current_player g s) a], w\<lparr>py_global := r'\<rparr>)))
      else (Inr initial_actions, w))"

definition play_game ::
  "nat \<Rightarrow> ('s, 'a) game \<Rightarrow> bool \<Rightarrow> string list \<Rightarrow> ('s, 'a, 'b) world
     \<Rightarrow> (exn + real list \<times> string list) option \<times> ('s, 'a, 'b) world" where
  "play_game fuel g random_first initial_actions w =
     (case first_actions g random_first initial_actions w of
        (Inl e, w0) \<Rightarrow> (Some (Inl e), w0)
      | (Inr labels, w0) \<Rightarrow>
          (case play_opening g labels (new_initial_state g) [] w0 of
             (Inl e, w1) \<Rightarrow> (Some (Inl e), w1)
           | (Inr (s1, h1), w1) \<Rightarrow>
               (case play_loop fuel g s1 h1 w1 of
                  (None, w2) \<Rightarrow> (None, w2)
                | (Some (Inl e), w2) \<Rightarrow> (Some (Inl e), w2)
                | (Some (Inr (s2, h2)), w2) \<Rightarrow>
                    (Some (Inr (returns g s2, h2)),
                     w2\<lparr>bots := map bot_restart (bots w2)\<rparr>))))"

section \<open>\<open>_init_bot\<close>\<close>

text \<open>
  The flags the model reads, and the constructors of the bot library. A constructor
  stands for the library call with the flags it is given in the source
  (\<open>uct_c\<close>, \<open>max_simulations\<close>, \<open>gtp_path\<close> and so on); \<open>RandomState\<close> is
  \<open>np.random.RandomState\<close>, a generator of its own made from \<open>FLAGS.seed\<close>.
\<close>

record flags =
  player1 :: string
  player2 :: string
  num_games :: int
  seed :: "int option"
  random_first :: bool

record ('s, 'a, 'b) lib =
  RandomState :: "int option \<Rightarrow> rng"
  MCTSBot :: "('s, 'a) game \<Rightarrow> rng \<Rightarrow> ('s, 'a, 'b) agent"
  AZBot :: "('s, 'a) game \<Rightarrow> rng \<Rightarrow> ('s, 'a, 'b) agent"
  UniformRandomBot :: "int \<Rightarrow> rng \<Rightarrow> ('s, 'a, 'b) agent"
  GTPBot :: "('s, 'a) game \<Rightarrow> ('s, 'a, 'b) agent"

definition init_bot ::
  "('s, 'a, 'b) lib \<Rightarrow> flags \<Rightarrow> string \<Rightarrow> ('s, 'a) game \<Rightarrow> int
     \<Rightarrow> exn + ('s, 'a, 'b) bot" where
  "init_bot L F bot_type g player_id =
     (let rng = RandomState L (seed F) in
      if bot_type = ''mcts'' then Inr (Agent (MCTSBot L g rng))
      else if bot_type = ''az'' then Inr (Agent (AZBot L g rng))
      else if bot_type = ''random'' then Inr (Agent (UniformRandomBot L player_id rng))
      else if bot_type = ''human'' then Inr HumanBot
      else if bot_type = ''gtp'' then Inr (Agent (GTPBot L g))
      else Inl (ValueError (''Invalid bot type: '' @ bot_type)))"

section \<open>\<open>main\<close>\<close>

record ('s, 'a, 'b) session =
  wld :: "('s, 'a, 'b) world"
  histories :: "(string \<times> int) list"
  overall_returns :: "real list"
  overall_wins :: "int list"
  game_num :: int

text \<open>\<open>" ".join(history)\<close>.\<close>

fun join :: "string list \<Rightarrow> string" where
  "join [] = []"
| "join [x] = x"
| "join (x # y # ys) = x @ '' '' @ join (y # ys)"

text \<open>
  \<open>histories[key] += 1\<close> on a \<open>defaultdict(int)\<close>: the dictionary is the list of its
  items in insertion order.
\<close>

fun bump :: "string \<Rightarrow> (string \<times> int) list \<Rightarrow> (string \<times> int) list" where
  "bump k [] = [(k, 1)]"
| "bump k ((k', c) # rest) =
     (if k = k' then (k', c + 1) # rest else (k', c) # bump k rest)"

text \<open>Lines 207 to 210: the loop \<open>for i, v in enumerate(returns)\<close> from index \<open>i\<close>.\<close>

fun tally ::
  "nat \<Rightarrow> real list \<Rightarrow> ('s, 'a, 'b) session \<Rightarrow> exn option \<times> ('s, 'a, 'b) session" where
  "tally i [] ss = (None, ss)"
| "tally i (v # vs) ss =
     (if i < length (overall_returns ss) then
        (let ss1 = ss\<lparr>overall_returns :=
                        (overall_returns ss)[i := overall_returns ss ! i + v]\<rparr>
         in if v > 0 then
              (if i < length (overall_wins ss1) then
                 tally (Suc i) vs
                   (ss1\<lparr>overall_wins := (overall_wins ss1)[i := overall_wins ss1 ! i + 1]\<rparr>)
               else (Some IndexError, ss1))
            else tally (Suc i) vs ss1)
      else (Some IndexError, ss))"

text \<open>Lines 201 to 203: at game number 2 the bot of seat 1 is replaced by a \<open>HumanBot\<close>.\<close>

definition substitute_human :: "('s, 'a, 'b) session \<Rightarrow> ('s, 'a, 'b) session" where
  "substitute_human ss =
     (if game_num ss = 2
      then ss\<lparr>wld := (wld ss)\<lparr>bots := (bots (wld ss))[1 := HumanBot]\<rparr>\<rparr>
      else ss)"

text \<open>
  Lines 199 to 210: the body of the \<open>try\<close>, over the game numbers still to play. Each
  game gets the same fuel.
\<close>

fun for_games ::
  "nat \<Rightarrow> ('s, 'a) game \<Rightarrow> flags \<Rightarrow> string list \<Rightarrow> nat list \<Rightarrow> ('s, 'a, 'b) session
     \<Rightarrow> (exn + unit) option \<times> ('s, 'a, 'b) session" where
  "for_games fuel g F argv [] ss = (Some (Inr ()), ss)"
| "for_games fuel g F argv (k # ks) ss =
     (let ss2 = substitute_human (ss\<lparr>game_num := int k\<rparr>)
      in case play_game fuel g (random_first F) (drop 1 argv) (wld ss2) of
           (None, w) \<Rightarrow> (None, ss2\<lparr>wld := w\<rparr>)
         | (Some (Inl e), w) \<Rightarrow> (Some (Inl e), ss2\<lparr>wld := w\<rparr>)
         | (Some (Inr (rets, history)), w) \<Rightarrow>
             (case tally 0 rets
                     (ss2\<lparr>wld := w, histories := bump (join history) (histories ss2)\<rparr>) of
                (Some e, ss3) \<Rightarrow> (Some (Inl e), ss3)
              | (None, ss3) \<Rightarrow> for_games fuel g F argv ks ss3))"

text \<open>Lines 193 to 196.\<close>

definition session_init ::
  "('s, 'a, 'b) bot list \<Rightarrow> stdin_event list \<Rightarrow> rng \<Rightarrow> rng \<Rightarrow> ('s, 'a, 'b) session" where
  "session_init bs inp np py =
     \<lparr>wld = \<lparr>bots = bs, stdin = inp, np_global = np, py_global = py, calls = []\<rparr>,
      histories = [], overall_returns = [0, 0], overall_wins = [0, 0], game_num = 0\<rparr>"

text \<open>Lines 215 to 219: what the session prints at its end.\<close>

record report =
  games_played :: int
  distinct_games :: nat
  players :: "string \<times> string"
  wins :: "int list"
  total_returns :: "real list"

definition final_report :: "flags \<Rightarrow> ('s, 'a, 'b) session \<Rightarrow> report" where
  "final_report F ss =
     \<lparr>games_played = game_num ss + 1, distinct_games = length (histories ss),
      players = (player1 F, player2 F), wins = overall_wins ss,
      total_returns = overall_returns ss\<rparr>"

text \<open>
  Lines 211 to 219: the \<open>except\<close> clause and the final prints. Any other exception
  leaves \<open>main\<close>.
\<close>

definition session_end ::
  "flags \<Rightarrow> (exn + unit) option \<times> ('s, 'a, 'b) session \<Rightarrow> (exn + report) option" where
  "session_end F r =
     (case r of
        (None, ss) \<Rightarrow> None
      | (Some (Inl e), ss) \<Rightarrow>
          (if e = KeyboardInterrupt \<or> e = EOFError
           then Some (Inr (final_report F (ss\<lparr>game_num := game_num ss - 1\<rparr>)))
           else Some (Inl e))
      | (Some (Inr u), ss) \<Rightarrow> Some (Inr (final_report F ss)))"

text \<open>
  \<open>main\<close>, for a loaded game \<open>g\<close>; \<open>inp\<close>, \<open>np\<close> and \<open>py\<close> are the standard input and
  the states of the global generators of numpy and of Python's \<open>random\<close> when the
  process starts. No statement of the file seeds these two.
\<close>

definition main ::
  "nat \<Rightarrow> ('s, 'a) game \<Rightarrow> flags \<Rightarrow> ('s, 'a, 'b) lib \<Rightarrow> string list
     \<Rightarrow> stdin_event list \<Rightarrow> rng \<Rightarrow> rng \<Rightarrow> (exn + report) option" where
  "main fuel g F L argv inp np py =
     (if num_players g > 2 then
        Some (Inl (SystemExit
          ''This game requires more players than the example can handle.''))
      else
        (case init_bot L F (player1 F) g 0 of
           Inl e \<Rightarrow> Some (Inl e)
         | Inr b0 \<Rightarrow>
             (case init_bot L F (player2 F) g 1 of
                Inl e \<Rightarrow> Some (Inl e)
              | Inr b1 \<Rightarrow>
                  session_end F
                    (for_games fuel g F argv [0..<nat (num_games F)]
                       (session_init [b0, b1] inp np py)))))"

section \<open>Concrete games and bots\<close>

text \<open>
  A game of two plies with the actions A, B and C: seat 0 moves, then seat 1. The state
  is the list of the actions played. The variants below change single methods.
\<close>

definition abc :: "(nat list, nat) game" where
  "abc =
     \<lparr>num_players = 2, new_initial_state = [],
      is_terminal = (\<lambda>s. 2 \<le> length s),
      current_player = (\<lambda>s. if 2 \<le> length s then - 4 else int (length s)),
      is_chance_node = (\<lambda>s. False),
      is_simultaneous_node = (\<lambda>s. False),
      legal_actions = (\<lambda>s. if 2 \<le> length s then [] else [0, 1, 2]),
      action_to_string = (\<lambda>s p a. if a = 0 then ''A'' else if a = 1 then ''B'' else ''C''),
      chance_outcomes = (\<lambda>s. []),
      apply_action = (\<lambda>s a. s @ [a]),
      returns = (\<lambda>s. if even (sum_list s) then [1, - 1] else [- 1, 1])\<rparr>"

text \<open>One toss of a fair coin decides the game.\<close>

definition coin :: "(nat list, nat) game" where
  "coin =
     abc\<lparr>is_terminal := (\<lambda>s. s \<noteq> []),
         current_player := (\<lambda>s. if s = [] then - 1 else - 4),
         is_chance_node := (\<lambda>s. s = []),
         legal_actions := (\<lambda>s. if s = [] then [0, 1] else []),
         chance_outcomes := (\<lambda>s. [(0, 1 / 2), (1, 1 / 2)])\<rparr>"

text \<open>Two legal actions with the same label.\<close>

definition dup :: "(nat list, nat) game" where
  "dup = abc\<lparr>action_to_string := (\<lambda>s p a. ''x'')\<rparr>"

text \<open>Every state that is not terminal is a simultaneous node.\<close>

definition sim :: "(nat list, nat) game" where
  "sim = abc\<lparr>current_player := (\<lambda>s. if 2 \<le> length s then - 4 else - 2),
             is_simultaneous_node := (\<lambda>s. \<not> 2 \<le> length s)\<rparr>"

text \<open>A bot that always plays action 0 and counts the calls it receives.\<close>

definition first_bot :: "(nat list, nat, nat) agent" where
  "first_bot =
     \<lparr>step = (\<lambda>m s. (0, Suc m)), inform_action = (\<lambda>m s p a. Suc m),
      restart = (\<lambda>m. 0), mem = 0\<rparr>"

definition toy_lib :: "(nat list, nat, nat) lib" where
  "toy_lib =
     \<lparr>RandomState = (\<lambda>sd. \<lparr>draws = (\<lambda>n. case sd of None \<Rightarrow> n | Some k \<Rightarrow> nat \<bar>k\<bar> + n), pos = 0\<rparr>),
      MCTSBot = (\<lambda>g r. first_bot), AZBot = (\<lambda>g r. first_bot),
      UniformRandomBot = (\<lambda>i r. first_bot), GTPBot = (\<lambda>g. first_bot)\<rparr>"

definition toy_flags :: flags where
  "toy_flags =
     \<lparr>player1 = ''random'', player2 = ''random'', num_games = 5, seed = Some 42,
      random_first = False\<rparr>"

definition const_rng :: "nat \<Rightarrow> rng" where
  "const_rng k = \<lparr>draws = (\<lambda>n. k), pos = 0\<rparr>"

definition toy_world :: "(nat list, nat, nat) bot list \<Rightarrow> stdin_event list \<Rightarrow> (nat list, nat, nat) world" where
  "toy_world bs inp =
     \<lparr>bots = bs, stdin = inp, np_global = const_rng 0, py_global = const_rng 0, calls = []\<rparr>"

text \<open>A chance node whose distribution gives action 0 the probability 0 and action 1 the probability 1.\<close>

definition sure :: "(nat list, nat) game" where
  "sure = coin\<lparr>chance_outcomes := (\<lambda>s. [(0, 0), (1, 1)])\<rparr>"

section \<open>Properties of the call log\<close>

text \<open>
  The calls of one ply in the main loop, for \<open>n\<close> bots, and of one ply of the forced
  opening.
\<close>

definition loop_block :: "('s, 'a) game \<Rightarrow> nat \<Rightarrow> 's \<times> 'a \<Rightarrow> ('s, 'a) event list" where
  "loop_block g n x =
     Classify (fst x)
       # map (\<lambda>i. Inform i (fst x) (current_player g (fst x)) (snd x))
           (filter (\<lambda>i. int i \<noteq> current_player g (fst x)) [0..<n])
       @ [Apply (fst x) (snd x)]"

definition opening_block :: "('s, 'a) game \<Rightarrow> nat \<Rightarrow> 's \<times> 'a \<Rightarrow> ('s, 'a) event list" where
  "opening_block g n x =
     map (\<lambda>i. Inform i (fst x) (current_player g (fst x)) (snd x)) [0..<n]
       @ [Apply (fst x) (snd x)]"

text \<open>
  A log read from left to right, remembering the \<open>inform_action\<close> calls not yet followed
  by an \<open>apply_action\<close>. The log passes when every such call is followed, before any
  classification, by the application of the action it reports to the very state it was
  given, and no call is left over.
\<close>

definition pre_step ::
  "('s \<times> 'a) list option \<Rightarrow> ('s, 'a) event \<Rightarrow> ('s \<times> 'a) list option" where
  "pre_step st e =
     (case st of
        None \<Rightarrow> None
      | Some pend \<Rightarrow>
          (case e of
             Classify s \<Rightarrow> if pend = [] then Some [] else None
           | Inform i s p a \<Rightarrow> Some (pend @ [(s, a)])
           | Apply s a \<Rightarrow> if list_all (\<lambda>x. x = (s, a)) pend then Some [] else None))"

definition informed_before_apply :: "('s, 'a) event list \<Rightarrow> bool" where
  "informed_before_apply tr = (foldl pre_step (Some []) tr = Some [])"

text \<open>
  The reading of the specification: an \<open>inform_action\<close> call of a ply comes after the
  \<open>apply_action\<close> of that ply and is given the state that application produced.
  \<open>cur\<close> is the application of the current ply, if it has happened.
\<close>

fun informed_after_apply ::
  "('s, 'a) game \<Rightarrow> ('s \<times> 'a) option \<Rightarrow> ('s, 'a) event list \<Rightarrow> bool" where
  "informed_after_apply g cur [] = True"
| "informed_after_apply g cur (Classify s # tr) = informed_after_apply g None tr"
| "informed_after_apply g cur (Apply s a # tr) = informed_after_apply g (Some (s, a)) tr"
| "informed_after_apply g cur (Inform i s p a # tr) =
     ((case cur of
         None \<Rightarrow> False
       | Some (s0, a0) \<Rightarrow> a = a0 \<and> s = apply_action g s0 a0)
      \<and> informed_after_apply g cur tr)"

text \<open>
  Counting the \<open>inform_action\<close> calls of each ply: at every \<open>apply_action\<close>, bot \<open>i\<close>
  of the \<open>n\<close> bots must have been called \<open>expect s i\<close> times since the last one.
\<close>

definition count_step ::
  "('s \<Rightarrow> nat \<Rightarrow> nat) \<Rightarrow> nat \<Rightarrow> nat list option \<Rightarrow> ('s, 'a) event \<Rightarrow> nat list option" where
  "count_step expect n st e =
     (case st of
        None \<Rightarrow> None
      | Some js \<Rightarrow>
          (case e of
             Classify s \<Rightarrow> Some js
           | Inform i s p a \<Rightarrow> Some (js @ [i])
           | Apply s a \<Rightarrow>
               if list_all (\<lambda>i. count_list js i = expect s i) [0..<n]
                  \<and> list_all (\<lambda>j. j < n) js
               then Some [] else None))"

definition informs_counted ::
  "('s \<Rightarrow> nat \<Rightarrow> nat) \<Rightarrow> nat \<Rightarrow> ('s, 'a) event list \<Rightarrow> bool" where
  "informs_counted expect n tr = (foldl (count_step expect n) (Some []) tr = Some [])"

text \<open>Once for every seat but the acting one; once for every seat.\<close>

definition others :: "('s, 'a) game \<Rightarrow> 's \<Rightarrow> nat \<Rightarrow> nat" where
  "others g s i = (if int i = current_player g s then 0 else 1)"

definition everyone :: "'s \<Rightarrow> nat \<Rightarrow> nat" where
  "everyone s i = 1"

text \<open>The plies applied in a log.\<close>

fun applied :: "('s, 'a) event list \<Rightarrow> ('s \<times> 'a) list" where
  "applied [] = []"
| "applied (Apply s a # tr) = (s, a) # applied tr"
| "applied (Classify s # tr) = applied tr"
| "applied (Inform i s p a # tr) = applied tr"

text \<open>
  Replaying opening labels from a state: the position and the text of the first label
  that \<open>get_action\<close> does not resolve, if there is one.
\<close>

fun unresolved :: "('s, 'a) game \<Rightarrow> 's \<Rightarrow> string list \<Rightarrow> (nat \<times> string) option" where
  "unresolved g s [] = None"
| "unresolved g s (l # ls) =
     (case get_action g s l of
        None \<Rightarrow> Some (0, l)
      | Some a \<Rightarrow> map_option (\<lambda>(n, l'). (Suc n, l')) (unresolved g (apply_action g s a) ls))"

text \<open>
  What the calls of a log do to the bots, written out for each kind of call.
  \<open>informed b s p a\<close> is the bot \<open>b\<close> after its \<open>inform_action(s, p, a)\<close>: the memory
  of an agent becomes \<open>inform_action ag (mem ag) s p a\<close>. \<open>acted g s bs\<close> is the list
  of bots after the decision taken at the classified state \<open>s\<close>: at a decision node the
  agent at the seat to move has made its \<open>step\<close>, nothing else has changed.
\<close>

definition informed :: "('s, 'a, 'b) bot \<Rightarrow> 's \<Rightarrow> int \<Rightarrow> 'a \<Rightarrow> ('s, 'a, 'b) bot" where
  "informed b s p a =
     (case b of
        HumanBot \<Rightarrow> HumanBot
      | Agent ag \<Rightarrow> Agent (ag\<lparr>mem := inform_action ag (mem ag) s p a\<rparr>))"

definition acted ::
  "('s, 'a) game \<Rightarrow> 's \<Rightarrow> ('s, 'a, 'b) bot list \<Rightarrow> ('s, 'a, 'b) bot list" where
  "acted g s bs =
     (if is_chance_node g s \<or> is_simultaneous_node g s then bs
      else
        (case py_index (length bs) (current_player g s) of
           None \<Rightarrow> bs
         | Some i \<Rightarrow>
             (case bs ! i of
                HumanBot \<Rightarrow> bs
              | Agent ag \<Rightarrow> bs[i := Agent (ag\<lparr>mem := snd (step ag (mem ag) s)\<rparr>)])))"

definition replay_step ::
  "('s, 'a) game \<Rightarrow> ('s, 'a, 'b) bot list \<Rightarrow> ('s, 'a) event \<Rightarrow> ('s, 'a, 'b) bot list" where
  "replay_step g bs e =
     (case e of
        Classify s \<Rightarrow> acted g s bs
      | Inform i s p a \<Rightarrow> bs[i := informed (bs ! i) s p a]
      | Apply s a \<Rightarrow> bs)"

section \<open>The concrete games, method by method\<close>

lemma abc_sel:
  "num_players abc = 2" "new_initial_state abc = []"
  "is_terminal abc s = (2 \<le> length s)"
  "current_player abc s = (if 2 \<le> length s then - 4 else int (length s))"
  "is_chance_node abc s = False"
  "is_simultaneous_node abc s = False"
  "legal_actions abc s = (if 2 \<le> length s then [] else [0, 1, 2])"
  "action_to_string abc s p a = (if a = 0 then ''A'' else if a = 1 then ''B'' else ''C'')"
  "chance_outcomes abc s = []"
  "apply_action abc s a = s @ [a]"
  "returns abc s = (if even (sum_list s) then [1, - 1] else [- 1, 1])"
  by (simp_all add: abc_def)

lemma coin_sel:
  "num_players coin = 2" "new_initial_state coin = []"
  "is_terminal coin s = (s \<noteq> [])"
  "current_player coin s = (if s = [] then - 1 else - 4)"
  "is_chance_node coin s = (s = [])"
  "is_simultaneous_node coin s = False"
  "legal_actions coin s = (if s = [] then [0, 1] else [])"
  "action_to_string coin s p a = (if a = 0 then ''A'' else if a = 1 then ''B'' else ''C'')"
  "chance_outcomes coin s = [(0, 1 / 2), (1, 1 / 2)]"
  "apply_action coin s a = s @ [a]"
  "returns coin s = (if even (sum_list s) then [1, - 1] else [- 1, 1])"
  by (simp_all add: coin_def abc_def)

lemma sure_sel:
  "num_players sure = 2" "new_initial_state sure = []"
  "is_terminal sure s = (s \<noteq> [])"
  "current_player sure s = (if s = [] then - 1 else - 4)"
  "is_chance_node sure s = (s = [])"
  "is_simultaneous_node sure s = False"
  "legal_actions sure s = (if s = [] then [0, 1] else [])"
  "action_to_string sure s p a = (if a = 0 then ''A'' else if a = 1 then ''B'' else ''C'')"
  "chance_outcomes sure s = [(0, 0), (1, 1)]"
  "apply_action sure s a = s @ [a]"
  "returns sure s = (if even (sum_list s) then [1, - 1] else [- 1, 1])"
  by (simp_all add: sure_def coin_def abc_def)

lemma dup_sel:
  "num_players dup = 2" "new_initial_state dup = []"
  "is_terminal dup s = (2 \<le> length s)"
  "current_player dup s = (if 2 \<le> length s then - 4 else int (length s))"
  "is_chance_node dup s = False"
  "is_simultaneous_node dup s = False"
  "legal_actions dup s = (if 2 \<le> length s then [] else [0, 1, 2])"
  "action_to_string dup s p a = ''x''"
  "apply_action dup s a = s @ [a]"
  by (simp_all add: dup_def abc_def)

lemma sim_sel:
  "num_players sim = 2" "new_initial_state sim = []"
  "is_terminal sim s = (2 \<le> length s)"
  "current_player sim s = (if 2 \<le> length s then - 4 else - 2)"
  "is_chance_node sim s = False"
  "is_simultaneous_node sim s = (\<not> 2 \<le> length s)"
  "legal_actions sim s = (if 2 \<le> length s then [] else [0, 1, 2])"
  "action_to_string sim s p a = (if a = 0 then ''A'' else if a = 1 then ''B'' else ''C'')"
  "apply_action sim s a = s @ [a]"
  "returns sim s = (if even (sum_list s) then [1, - 1] else [- 1, 1])"
  by (simp_all add: sim_def abc_def)

lemmas run_defs =
  play_game_def first_actions_def toy_world_def first_bot_def decision_branch_def
  py_index_def log_call_def inform_bots_def get_action_def chance_branch_def
  np_random_choice_def random_sample_def random_choice_def const_rng_def Let_def

lemmas main_defs =
  main_def init_bot_def toy_flags_def toy_lib_def session_init_def session_end_def
  final_report_def substitute_human_def

section \<open>The action codec\<close>

lemma find_filter: "find P xs = (case filter P xs of [] \<Rightarrow> None | a # rest \<Rightarrow> Some a)"
  by (induction xs) simp_all

lemma get_action_filter:
  "get_action g s l =
     (case filter (\<lambda>a. l = action_to_string g s (current_player g s) a) (legal_actions g s) of
        [] \<Rightarrow> None | a # rest \<Rightarrow> Some a)"
  unfolding get_action_def by (rule find_filter)

text \<open>
  Claim C8, as the code has it. \<open>get_action\<close> is a function of the game, the state and
  the label alone. It returns \<open>None\<close> for a label that no legal action carries, the
  action for a label that exactly one legal action carries, and, when several legal
  actions carry the label, the first of them in the order of \<open>legal_actions\<close>.
\<close>

theorem get_action_first_match:
  "(l \<notin> set (map (action_to_string g s (current_player g s)) (legal_actions g s))
      \<longrightarrow> get_action g s l = None)
   \<and> (filter (\<lambda>a. l = action_to_string g s (current_player g s) a) (legal_actions g s) = [a]
      \<longrightarrow> get_action g s l = Some a)
   \<and> (filter (\<lambda>a. l = action_to_string g s (current_player g s) a) (legal_actions g s) = a # rest
      \<longrightarrow> get_action g s l = Some a)"
proof (intro conjI impI)
  assume "l \<notin> set (map (action_to_string g s (current_player g s)) (legal_actions g s))"
  then have "filter (\<lambda>a. l = action_to_string g s (current_player g s) a) (legal_actions g s) = []"
    by (auto simp: filter_empty_conv)
  then show "get_action g s l = None" by (simp add: get_action_filter)
qed (simp_all add: get_action_filter)

text \<open>
  In the game \<open>abc\<close> no action is labelled Z and one is labelled B; in \<open>dup\<close> the three
  actions are all labelled x.
\<close>

theorem get_action_first_match_witness:
  "get_action abc [] ''Z'' = None \<and> get_action abc [] ''B'' = Some 1
   \<and> get_action dup [] ''x'' = Some 0"
  using get_action_first_match [of "''Z''" abc "[]"]
    get_action_first_match [of "''B''" abc "[]" 1]
    get_action_first_match [of "''x''" dup "[]" 0 "[1, 2]"]
  by (simp add: abc_sel dup_sel)

text \<open>
  Against claim C8 as stated: with three legal actions under the one label x, the lookup
  does pick one of them, the first, and reports nothing.
\<close>

theorem get_action_picks_among_duplicates:
  "filter (\<lambda>a. ''x'' = action_to_string dup [] (current_player dup []) a) (legal_actions dup [])
     = [0, 1, 2]
   \<and> get_action dup [] ''x'' = Some 0"
  by (simp add: get_action_def dup_sel)

section \<open>The chance resolver\<close>

lemma sample_bounds: "0 \<le> fst (random_sample r)" "fst (random_sample r) < 1"
  by (simp_all add: random_sample_def)

lemma choice_sure: "np_random_choice r [A, B] [0, 1] = Inr (B, r\<lparr>pos := Suc (pos r)\<rparr>)"
proof -
  obtain u r' where ur: "random_sample r = (u, r')" by (cases "random_sample r")
  have "0 \<le> u" "u < 1" using sample_bounds[of r] ur by simp_all
  moreover have "r' = r\<lparr>pos := Suc (pos r)\<rparr>" using ur by (simp add: random_sample_def)
  ultimately show ?thesis by (simp add: np_random_choice_def ur)
qed

text \<open>
  Claim C9, as the code has it. At a chance node with the outcomes \<open>[(A, 0), (B, 1)]\<close>
  the action selected is \<open>B\<close>, whatever the state of numpy's global generator, and the
  generator has advanced by one sample.
\<close>

theorem sure_outcome_selected:
  "chance_outcomes g s = [(A, 0), (B, 1)] \<Longrightarrow>
   chance_branch g s w =
     (Inr (B, action_to_string g s (current_player g s) B),
      w\<lparr>np_global := (np_global w)\<lparr>pos := Suc (pos (np_global w))\<rparr>\<rparr>)"
  by (simp add: chance_branch_def choice_sure)

theorem sure_outcome_selected_witness:
  "chance_outcomes sure [] = [(0, 0), (1, 1)]
   \<and> fst (chance_branch sure [] (toy_world [] [])) = Inr (1, ''B'')"
  using sure_outcome_selected [of sure "[]" 0 1 "toy_world [] []"]
  by (simp add: sure_sel)

text \<open>
  Against claim C9 as stated: the call on the sure distribution does consume randomness,
  the generator that stood at position 0 stands at position 1 afterwards.
\<close>

theorem sure_outcome_consumes_a_sample:
  "fst (chance_branch sure [] (toy_world [] [])) = Inr (1, ''B'')
   \<and> pos (np_global (toy_world [] [])) = 0
   \<and> pos (np_global (snd (chance_branch sure [] (toy_world [] [])))) = 1"
  by (simp add: run_defs sure_sel)

section \<open>Failures inside the main loop\<close>

text \<open>
  Claim C3, as the code has it. When the bot to move is a \<open>HumanBot\<close> and the line typed
  is the label of no legal action, the game ends with \<open>SystemExit\<close> and the message
  \<open>Invalid move\<close>: one line has been read, no action applied, and the session does not
  catch the exit.
\<close>

theorem human_invalid_move_exits:
  "\<not> is_terminal g s \<Longrightarrow> \<not> is_chance_node g s \<Longrightarrow> \<not> is_simultaneous_node g s \<Longrightarrow>
   py_index (length (bots w)) (current_player g s) = Some i \<Longrightarrow> bots w ! i = HumanBot \<Longrightarrow>
   stdin w = Line l # rest \<Longrightarrow> get_action g s l = None \<Longrightarrow>
   play_loop (Suc fuel) g s history w =
     (Some (Inl (SystemExit (''Invalid move: '' @ l))),
      w\<lparr>calls := calls w @ [Classify s], stdin := rest\<rparr>)
   \<and> session_end F (Some (Inl (SystemExit (''Invalid move: '' @ l))), ss) =
       Some (Inl (SystemExit (''Invalid move: '' @ l)))"
  by (simp add: log_call_def session_end_def decision_branch_def)

theorem human_invalid_move_exits_witness:
  "\<not> is_terminal abc [] \<and> \<not> is_chance_node abc [] \<and> \<not> is_simultaneous_node abc []
   \<and> py_index (length (bots (toy_world [HumanBot, Agent first_bot] [Line ''zz'', Line ''A''])))
        (current_player abc []) = Some 0
   \<and> get_action abc [] ''zz'' = None
   \<and> play_loop (Suc 0) abc [] [] (toy_world [HumanBot, Agent first_bot] [Line ''zz'', Line ''A'']) =
     (Some (Inl (SystemExit ''Invalid move: zz'')),
      (toy_world [HumanBot, Agent first_bot] [Line ''A''])\<lparr>calls := [Classify []]\<rparr>)"
  using human_invalid_move_exits [where g = abc and s = "[]" and fuel = 0 and history = "[]"
      and i = 0 and w = "toy_world [HumanBot, Agent first_bot] [Line ''zz'', Line ''A'']"
      and l = "''zz''" and rest = "[Line ''A'']" and F = toy_flags
      and ss = "session_init [Agent first_bot] [] (const_rng 0) (const_rng 0)"]
  by (simp add: abc_sel toy_world_def py_index_def get_action_def)

text \<open>
  Against claim C3 as stated: a session with a human at seat 0 who types zz and would
  type the legal label A next. The session is over after the first line, with
  \<open>SystemExit\<close>; the second line is never asked for.
\<close>

theorem human_invalid_move_not_reprompted:
  "main (Suc (Suc 0)) abc (toy_flags\<lparr>player1 := ''human''\<rparr>) toy_lib [''prog'']
     [Line ''zz'', Line ''A''] (const_rng 0) (const_rng 0) =
   Some (Inl (SystemExit ''Invalid move: zz''))
   \<and> get_action abc [] ''zz'' = None \<and> get_action abc [] ''A'' = Some 0"
  by (simp add: main_defs run_defs abc_sel upt_conv_Cons)

section \<open>The call log of a game\<close>

lemma inform_from_length: "length (fst (inform_from i skip s p a bs)) = length bs"
  by (induction bs arbitrary: i) (simp_all add: split_beta)

lemma inform_from_events:
  "snd (inform_from i skip s p a bs) =
     map (\<lambda>j. Inform j s p a) (filter (\<lambda>j. \<not> skip j) [i..<i + length bs])"
proof (induction bs arbitrary: i)
  case Nil
  show ?case by simp
next
  case (Cons b bs)
  have "[i..<i + length (b # bs)] = i # [Suc i..<Suc i + length bs]"
    using upt_conv_Cons [of i "i + Suc (length bs)"] by simp
  then show ?case using Cons.IH [of "Suc i"] by (simp add: split_beta)
qed

lemma inform_bots_calls:
  "calls (inform_bots skip s p a w) =
     calls w @ map (\<lambda>j. Inform j s p a) (filter (\<lambda>j. \<not> skip j) [0..<length (bots w)])"
  using inform_from_events [of 0 skip s p a "bots w"]
  by (simp add: inform_bots_def split_beta)

lemma inform_bots_length: "length (bots (inform_bots skip s p a w)) = length (bots w)"
  using inform_from_length [of 0 skip s p a "bots w"]
  by (simp add: inform_bots_def split_beta)

lemma chance_branch_world:
  "chance_branch g s w = (r, w') \<Longrightarrow> calls w' = calls w \<and> bots w' = bots w"
  by (auto simp: chance_branch_def Let_def split: if_splits sum.splits)

lemma decision_branch_world:
  "decision_branch g s w = (r, w') \<Longrightarrow>
   calls w' = calls w \<and> length (bots w') = length (bots w)"
  by (auto simp: decision_branch_def Let_def split_beta
      split: option.splits bot.splits list.splits stdin_event.splits)

lemma opening_shape:
  "play_opening g ls s h w = (r, w') \<Longrightarrow>
   \<exists>ps. calls w' = calls w @ concat (map (opening_block g (length (bots w))) ps)
        \<and> length (bots w') = length (bots w)"
proof (induction ls arbitrary: s h w)
  case Nil
  then have "calls w' = calls w @ concat (map (opening_block g (length (bots w))) [])
      \<and> length (bots w') = length (bots w)" by simp
  then show ?case by blast
next
  case (Cons l ls)
  show ?case
  proof (cases "get_action g s l")
    case None
    with Cons.prems have "calls w' = calls w @ concat (map (opening_block g (length (bots w))) [])
      \<and> length (bots w') = length (bots w)" by simp
    then show ?thesis by blast
  next
    case (Some a)
    let ?w1 = "log_call (Apply s a) (inform_bots (\<lambda>i. False) s (current_player g s) a w)"
    have len: "length (bots ?w1) = length (bots w)"
      by (simp add: log_call_def inform_bots_length)
    have c1: "calls ?w1 = calls w @ opening_block g (length (bots w)) (s, a)"
      by (simp add: log_call_def inform_bots_calls opening_block_def)
    from Cons.prems Some
    have "play_opening g ls (apply_action g s a) (h @ [l]) ?w1 = (r, w')" by simp
    from Cons.IH [OF this] obtain ps where
      "calls w' = calls ?w1 @ concat (map (opening_block g (length (bots ?w1))) ps)"
      "length (bots w') = length (bots ?w1)" by blast
    then have "calls w' = calls w @ concat (map (opening_block g (length (bots w))) ((s, a) # ps))
      \<and> length (bots w') = length (bots w)"
      by (simp add: len c1)
    then show ?thesis by blast
  qed
qed

lemma obtain_world:
  "(if is_chance_node g s then chance_branch g s w1
    else if is_simultaneous_node g s then (Inl e0, w1)
    else decision_branch g s w1) = (rb, w2) \<Longrightarrow>
   calls w2 = calls w1 \<and> length (bots w2) = length (bots w1)"
  using chance_branch_world [of g s w1 rb w2] decision_branch_world [of g s w1 rb w2]
  by (auto split: if_splits)

lemma loop_shape:
  "play_loop fuel g s h w = (r, w') \<Longrightarrow>
   \<exists>ps tl. calls w' = calls w @ concat (map (loop_block g (length (bots w))) ps) @ tl
        \<and> (tl = [] \<or> (\<exists>t. tl = [Classify t]))
        \<and> length (bots w') = length (bots w)"
proof (induction fuel arbitrary: s h w)
  case 0
  then have "calls w' = calls w @ concat (map (loop_block g (length (bots w))) []) @ []
      \<and> length (bots w') = length (bots w)"
    by (simp split: if_splits)
  then show ?case by blast
next
  case (Suc fuel)
  show ?case
  proof (cases "is_terminal g s")
    case True
    with Suc.prems have "calls w' = calls w @ concat (map (loop_block g (length (bots w))) []) @ []
      \<and> length (bots w') = length (bots w)"
      by simp
    then show ?thesis by blast
  next
    case False
    let ?w1 = "log_call (Classify s) w"
    let ?e0 = "ValueError ''Game cannot have simultaneous nodes.''"
    obtain rb w2 where br:
      "(if is_chance_node g s then chance_branch g s ?w1
        else if is_simultaneous_node g s then (Inl ?e0, ?w1)
        else decision_branch g s ?w1) = (rb, w2)"
      by (cases "if is_chance_node g s then chance_branch g s ?w1
        else if is_simultaneous_node g s then (Inl ?e0, ?w1)
        else decision_branch g s ?w1")
    from obtain_world [OF br]
    have c2: "calls w2 = calls w @ [Classify s]" and l2: "length (bots w2) = length (bots w)"
      by (simp_all add: log_call_def)
    show ?thesis
    proof (cases rb)
      case (Inl e)
      with Suc.prems False br have "w' = w2" by (simp add: Let_def)
      with c2 l2 have "calls w' = calls w @ concat (map (loop_block g (length (bots w))) []) @ [Classify s]
        \<and> length (bots w') = length (bots w)" by simp
      then show ?thesis by blast
    next
      case (Inr al)
      obtain a l where al: "al = (a, l)" by (cases al)
      let ?cp = "current_player g s"
      let ?w3 = "log_call (Apply s a) (inform_bots (\<lambda>i. int i = ?cp) s ?cp a w2)"
      have l3: "length (bots ?w3) = length (bots w)"
        by (simp add: log_call_def inform_bots_length l2)
      have c3: "calls ?w3 = calls w @ loop_block g (length (bots w)) (s, a)"
        by (simp add: log_call_def inform_bots_calls loop_block_def c2 l2)
      from Suc.prems False br Inr al
      have "play_loop fuel g (apply_action g s a) (h @ [l]) ?w3 = (r, w')"
        by (simp add: Let_def)
      from Suc.IH [OF this] obtain ps tl where
        "calls w' = calls ?w3 @ concat (map (loop_block g (length (bots ?w3))) ps) @ tl"
        "tl = [] \<or> (\<exists>t. tl = [Classify t])"
        "length (bots w') = length (bots ?w3)" by blast
      then have "calls w' = calls w @ concat (map (loop_block g (length (bots w))) ((s, a) # ps)) @ tl
        \<and> (tl = [] \<or> (\<exists>t. tl = [Classify t]))
        \<and> length (bots w') = length (bots w)"
        by (simp add: l3 c3)
      then show ?thesis by blast
    qed
  qed
qed

subsection \<open>The checks on the calls of one ply\<close>

lemma foldl_blocks:
  "(\<And>x. foldl f st (blk x) = st) \<Longrightarrow> foldl f st (concat (map blk ps)) = st"
  by (induction ps) simp_all

lemma pre_step_informs:
  "foldl pre_step (Some pend) (map (\<lambda>i. Inform i s p a) js) =
     Some (pend @ map (\<lambda>i. (s, a)) js)"
  by (induction js arbitrary: pend) (simp_all add: pre_step_def)

lemma pre_opening_block: "foldl pre_step (Some []) (opening_block g n x) = Some []"
  by (simp add: opening_block_def pre_step_informs) (simp add: pre_step_def list_all_iff)

lemma pre_loop_block: "foldl pre_step (Some []) (loop_block g n x) = Some []"
  by (simp add: loop_block_def pre_step_informs pre_step_def list_all_iff)

lemma count_step_informs:
  "foldl (count_step e n) (Some js) (map (\<lambda>i. Inform i s p a) is) = Some (js @ is)"
  by (induction "is" arbitrary: js) (simp_all add: count_step_def)

lemma count_list_filter_upt:
  "count_list (filter P [0..<n]) i = (if i < n \<and> P i then 1 else 0)"
  by (induction n) auto

lemma count_opening_block:
  "foldl (count_step everyone n) (Some []) (opening_block g n x) = Some []"
proof -
  have "list_all (\<lambda>i. count_list [0..<n] i = everyone (fst x) i) [0..<n]"
    using count_list_filter_upt [of "\<lambda>i. True" n] by (simp add: list_all_iff everyone_def)
  moreover have "list_all (\<lambda>j. j < n) [0..<n]" by (simp add: list_all_iff)
  ultimately show ?thesis
    by (simp add: opening_block_def count_step_informs) (simp add: count_step_def)
qed

lemma count_loop_block:
  "foldl (count_step (others g) n) (Some []) (loop_block g n x) = Some []"
proof -
  let ?js = "filter (\<lambda>i. int i \<noteq> current_player g (fst x)) [0..<n]"
  have "list_all (\<lambda>i. count_list ?js i = others g (fst x) i) [0..<n]"
    by (simp add: list_all_iff others_def count_list_filter_upt)
  moreover have "list_all (\<lambda>j. j < n) ?js" by (simp add: list_all_iff)
  ultimately show ?thesis
    by (simp add: loop_block_def count_step_informs count_step_def)
qed


lemma first_actions_world:
  "first_actions g rf la w = (r, w0) \<Longrightarrow> calls w0 = calls w \<and> bots w0 = bots w"
  by (auto simp: first_actions_def Let_def split: if_splits sum.splits)

lemma play_game_shape:
  assumes "play_game fuel g rf la w = (r, w')"
  shows "\<exists>ps1 ps2 tl.
      calls w' = calls w @ concat (map (opening_block g (length (bots w))) ps1)
                 @ concat (map (loop_block g (length (bots w))) ps2) @ tl
      \<and> (tl = [] \<or> (\<exists>t. tl = [Classify t]))
      \<and> length (bots w') = length (bots w)"
proof -
  let ?n = "length (bots w)"
  obtain r0 w0 where fa: "first_actions g rf la w = (r0, w0)"
    by (cases "first_actions g rf la w")
  from first_actions_world [OF fa] have w0: "calls w0 = calls w" "length (bots w0) = ?n"
    by simp_all
  show ?thesis
  proof (cases r0)
    case (Inl e)
    with assms fa have "w' = w0" by (simp add: play_game_def)
    with w0 have "calls w' = calls w @ concat (map (opening_block g ?n) [])
                 @ concat (map (loop_block g ?n) []) @ [] \<and> length (bots w') = ?n"
      by simp
    then show ?thesis by blast
  next
    case (Inr labels)
    obtain r1 w1 where op: "play_opening g labels (new_initial_state g) [] w0 = (r1, w1)"
      by (cases "play_opening g labels (new_initial_state g) [] w0")
    from opening_shape [OF op] w0 obtain ps1 where
      w1: "calls w1 = calls w @ concat (map (opening_block g ?n) ps1)" "length (bots w1) = ?n"
      by auto
    show ?thesis
    proof (cases r1)
      case (Inl e)
      with assms fa Inr op have "w' = w1" by (simp add: play_game_def)
      with w1 have "calls w' = calls w @ concat (map (opening_block g ?n) ps1)
                 @ concat (map (loop_block g ?n) []) @ [] \<and> length (bots w') = ?n"
        by simp
      then show ?thesis by blast
    next
      case (Inr sh)
      obtain s1 h1 where sh: "sh = (s1, h1)" by (cases sh)
      obtain r2 w2 where lp: "play_loop fuel g s1 h1 w1 = (r2, w2)"
        by (cases "play_loop fuel g s1 h1 w1")
      from loop_shape [OF lp] w1 obtain ps2 tl where
        w2: "calls w2 = calls w @ concat (map (opening_block g ?n) ps1)
                 @ concat (map (loop_block g ?n) ps2) @ tl"
          "tl = [] \<or> (\<exists>t. tl = [Classify t])" "length (bots w2) = ?n"
        by auto
      from assms fa \<open>r0 = Inr labels\<close> op Inr sh lp
      have "calls w' = calls w2 \<and> length (bots w') = length (bots w2)"
        by (auto simp: play_game_def split: option.splits sum.splits)
      with w2 have "calls w' = calls w @ concat (map (opening_block g ?n) ps1)
                 @ concat (map (loop_block g ?n) ps2) @ tl
          \<and> (tl = [] \<or> (\<exists>t. tl = [Classify t])) \<and> length (bots w') = ?n"
        by simp
      then show ?thesis by blast
    qed
  qed
qed

subsection \<open>The bots after the calls of a log\<close>

lemma applied_append: "applied (xs @ ys) = applied xs @ applied ys"
  by (induction xs rule: applied.induct) simp_all

lemma applied_informs: "applied (map (\<lambda>j. Inform j s p a) js) = []"
  by (induction js) simp_all

lemma bot_inform_informed: "bot_inform b s p a = informed b s p a"
  by (cases b) (simp_all add: informed_def)

lemma replay_informs_from:
  "length pre = i \<Longrightarrow>
   foldl (replay_step g) (pre @ bs)
     (map (\<lambda>j. Inform j s p a) (filter (\<lambda>j. \<not> skip j) [i..<i + length bs]))
   = pre @ fst (inform_from i skip s p a bs)"
proof (induction bs arbitrary: i pre)
  case Nil
  show ?case by simp
next
  case (Cons b bs)
  define js where "js = filter (\<lambda>j. \<not> skip j) [Suc i..<Suc i + length bs]"
  have up: "[i..<i + length (b # bs)] = i # [Suc i..<Suc i + length bs]"
    using upt_conv_Cons [of i "i + Suc (length bs)"] by simp
  have fl: "filter (\<lambda>j. \<not> skip j) [i..<i + length (b # bs)] = (if skip i then js else i # js)"
    unfolding up js_def by simp
  have ih: "foldl (replay_step g) (pre @ x # bs) (map (\<lambda>j. Inform j s p a) js)
      = pre @ x # fst (inform_from (Suc i) skip s p a bs)" for x
    using Cons.IH [of "pre @ [x]" "Suc i"] Cons.prems unfolding js_def by simp
  have st: "replay_step g (pre @ b # bs) (Inform i s p a) = pre @ informed b s p a # bs"
    unfolding Cons.prems [symmetric] by (simp add: replay_step_def)
  show ?case
    unfolding fl
    by (simp add: ih st split_beta bot_inform_informed)
qed

lemma inform_bots_bots:
  "bots (inform_bots skip s p a w) =
     foldl (replay_step g) (bots w)
       (map (\<lambda>j. Inform j s p a) (filter (\<lambda>j. \<not> skip j) [0..<length (bots w)]))"
  using replay_informs_from [of "[]" 0 g "bots w" s p a skip]
  by (simp add: inform_bots_def split_beta)

lemma inform_from_map:
  "fst (inform_from i skip s p a bs) =
     map (\<lambda>(j, b). if skip j then b else informed b s p a) (enumerate i bs)"
  by (induction bs arbitrary: i) (simp_all add: split_beta bot_inform_informed)

lemma inform_bots_map:
  "bots (inform_bots skip s p a w) =
     map (\<lambda>(j, b). if skip j then b else informed b s p a) (enumerate 0 (bots w))"
  using inform_from_map [of 0 skip s p a "bots w"] by (simp add: inform_bots_def split_beta)

lemma opening_bots:
  "play_opening g ls s h w = (r, w') \<Longrightarrow>
   \<exists>ext. calls w' = calls w @ ext \<and> bots w' = foldl (replay_step g) (bots w) ext"
proof (induction ls arbitrary: s h w)
  case Nil
  then have "calls w' = calls w @ [] \<and> bots w' = foldl (replay_step g) (bots w) []" by simp
  then show ?case by blast
next
  case (Cons l ls)
  show ?case
  proof (cases "get_action g s l")
    case None
    with Cons.prems have "calls w' = calls w @ [] \<and> bots w' = foldl (replay_step g) (bots w) []"
      by simp
    then show ?thesis by blast
  next
    case (Some a)
    let ?inf = "map (\<lambda>j. Inform j s (current_player g s) a)
        (filter (\<lambda>j. \<not> False) [0..<length (bots w)])"
    let ?w1 = "log_call (Apply s a) (inform_bots (\<lambda>i. False) s (current_player g s) a w)"
    have c1: "calls ?w1 = calls w @ ?inf @ [Apply s a]"
      by (simp add: log_call_def inform_bots_calls)
    have b1: "bots ?w1 = foldl (replay_step g) (bots w) (?inf @ [Apply s a])"
      using inform_bots_bots [of "\<lambda>i. False" s "current_player g s" a w g]
      by (simp add: log_call_def replay_step_def)
    from Cons.prems Some
    have "play_opening g ls (apply_action g s a) (h @ [l]) ?w1 = (r, w')" by simp
    from Cons.IH [OF this] obtain ext where
      "calls w' = calls ?w1 @ ext" "bots w' = foldl (replay_step g) (bots ?w1) ext" by blast
    then have "calls w' = calls w @ ((?inf @ [Apply s a]) @ ext)
        \<and> bots w' = foldl (replay_step g) (bots w) ((?inf @ [Apply s a]) @ ext)"
      unfolding c1 b1 by simp
    then show ?thesis by blast
  qed
qed

lemma decision_branch_bots:
  "\<not> is_chance_node g s \<Longrightarrow> \<not> is_simultaneous_node g s \<Longrightarrow>
   decision_branch g s w = (r, w') \<Longrightarrow> bots w' = acted g s (bots w)"
  by (auto simp: decision_branch_def acted_def Let_def split_beta
      split: option.splits bot.splits list.splits stdin_event.splits)

lemma obtain_bots:
  "(if is_chance_node g s then chance_branch g s w1
    else if is_simultaneous_node g s then (Inl e0, w1)
    else decision_branch g s w1) = (rb, w2) \<Longrightarrow>
   calls w2 = calls w1 \<and> bots w2 = acted g s (bots w1)
   \<and> ((\<exists>x. rb = Inr x) \<longrightarrow> is_chance_node g s \<or> \<not> is_simultaneous_node g s)"
  using chance_branch_world [of g s w1 rb w2] decision_branch_world [of g s w1 rb w2]
    decision_branch_bots [of g s w1 rb w2]
  by (auto simp: acted_def split: if_splits)

lemma loop_bots:
  "play_loop fuel g s h w = (r, w') \<Longrightarrow>
   \<exists>ext. calls w' = calls w @ ext \<and> bots w' = foldl (replay_step g) (bots w) ext
     \<and> list_all (\<lambda>x. is_chance_node g (fst x) \<or> \<not> is_simultaneous_node g (fst x))
         (applied ext)"
proof (induction fuel arbitrary: s h w)
  case 0
  then have "calls w' = calls w @ [] \<and> bots w' = foldl (replay_step g) (bots w) []"
    by (simp split: if_splits)
  then show ?case by fastforce
next
  case (Suc fuel)
  let ?P = "\<lambda>x. is_chance_node g (fst x) \<or> \<not> is_simultaneous_node g (fst x)"
  show ?case
  proof (cases "is_terminal g s")
    case True
    with Suc.prems have "calls w' = calls w @ [] \<and> bots w' = foldl (replay_step g) (bots w) []"
      by simp
    then show ?thesis by fastforce
  next
    case False
    let ?w1 = "log_call (Classify s) w"
    let ?e0 = "ValueError ''Game cannot have simultaneous nodes.''"
    obtain rb w2 where br:
      "(if is_chance_node g s then chance_branch g s ?w1
        else if is_simultaneous_node g s then (Inl ?e0, ?w1)
        else decision_branch g s ?w1) = (rb, w2)"
      by (cases "if is_chance_node g s then chance_branch g s ?w1
        else if is_simultaneous_node g s then (Inl ?e0, ?w1)
        else decision_branch g s ?w1")
    from obtain_bots [OF br]
    have c2: "calls w2 = calls w @ [Classify s]"
      and b2: "bots w2 = foldl (replay_step g) (bots w) [Classify s]"
      and ok: "(\<exists>x. rb = Inr x) \<longrightarrow> is_chance_node g s \<or> \<not> is_simultaneous_node g s"
      by (simp_all add: log_call_def replay_step_def)
    show ?thesis
    proof (cases rb)
      case (Inl e)
      with Suc.prems False br have "w' = w2" by (simp add: Let_def)
      with c2 b2 have "calls w' = calls w @ [Classify s]
        \<and> bots w' = foldl (replay_step g) (bots w) [Classify s]
        \<and> list_all ?P (applied [Classify s])" by simp
      then show ?thesis by blast
    next
      case (Inr al)
      obtain a l where al: "al = (a, l)" by (cases al)
      let ?cp = "current_player g s"
      let ?inf = "map (\<lambda>j. Inform j s ?cp a)
          (filter (\<lambda>j. \<not> int j = ?cp) [0..<length (bots w2)])"
      let ?w3 = "log_call (Apply s a) (inform_bots (\<lambda>i. int i = ?cp) s ?cp a w2)"
      let ?blk = "Classify s # ?inf @ [Apply s a]"
      have c3: "calls ?w3 = calls w @ ?blk"
        by (simp add: log_call_def inform_bots_calls c2)
      have b3: "bots ?w3 = foldl (replay_step g) (bots w) ?blk"
        using inform_bots_bots [of "\<lambda>i. int i = ?cp" s ?cp a w2 g]
        by (simp add: log_call_def b2 replay_step_def)
      have a3: "applied ?blk = [(s, a)]"
        by (simp add: applied_append applied_informs)
      from Suc.prems False br Inr al
      have "play_loop fuel g (apply_action g s a) (h @ [l]) ?w3 = (r, w')"
        by (simp add: Let_def)
      from Suc.IH [OF this] obtain ext where
        e: "calls w' = calls ?w3 @ ext" "bots w' = foldl (replay_step g) (bots ?w3) ext"
          "list_all ?P (applied ext)" by blast
      have "calls w' = calls w @ (?blk @ ext)
        \<and> bots w' = foldl (replay_step g) (bots w) (?blk @ ext)
        \<and> list_all ?P (applied (?blk @ ext))"
        using e ok Inr unfolding c3 b3 applied_append a3 by simp
      then show ?thesis by blast
    qed
  qed
qed

lemmas check_defs = informed_before_apply_def pre_step_def informs_counted_def count_step_def
  others_def everyone_def

text \<open>
  Claim C1, as the code has it. In every run of \<open>_play_game\<close>, whatever the fuel and
  however the run ends, each \<open>inform_action\<close> call of a ply (forced opening, chance or
  decision) is given the state as it is before the action of that ply is applied, and
  is followed, before any further classification, by the application of that very
  action to that very state. So the calls of ply n come before the mutation of ply n,
  hence before the classification of ply n+1.
\<close>

theorem inform_calls_precede_apply:
  "informed_before_apply (drop (length (calls w)) (calls (snd (play_game fuel g rf la w))))"
proof -
  let ?n = "length (bots w)"
  obtain r w' where pg: "play_game fuel g rf la w = (r, w')"
    by (cases "play_game fuel g rf la w")
  from play_game_shape [OF pg] obtain ps1 ps2 tl where
    c: "calls w' = calls w @ concat (map (opening_block g ?n) ps1)
                 @ concat (map (loop_block g ?n) ps2) @ tl"
    and tl: "tl = [] \<or> (\<exists>t. tl = [Classify t])" by blast
  have "foldl pre_step (Some []) tl = Some []"
    using tl by (auto simp: pre_step_def)
  then have "foldl pre_step (Some []) (concat (map (opening_block g ?n) ps1)
                 @ concat (map (loop_block g ?n) ps2) @ tl) = Some []"
    by (simp add: foldl_blocks pre_opening_block pre_loop_block)
  then show ?thesis by (simp add: informed_before_apply_def pg c)
qed

theorem inform_calls_precede_apply_witness:
  "calls (snd (play_game (Suc (Suc 0)) abc False []
      (toy_world [Agent first_bot, Agent first_bot] []))) =
     [Classify [], Inform 1 [] 0 0, Apply [] 0, Classify [0], Inform 0 [0] 1 0, Apply [0] 0]
   \<and> informed_before_apply
     ([Classify [], Inform 1 [] 0 0, Apply [] 0, Classify [0], Inform 0 [0] 1 0, Apply [0] 0]
        :: (nat list, nat) event list)"
  using inform_calls_precede_apply [of "toy_world [Agent first_bot, Agent first_bot] []" "Suc (Suc 0)" abc False "[]"]
  by (simp add: run_defs abc_sel)

text \<open>
  Against claim C1 as stated: in the game \<open>abc\<close> played by two bots, bot 1 is told of
  the first ply with the state \<open>[]\<close>, before \<open>Apply [] 0\<close> and not with the state
  \<open>[0]\<close> that the application produces.
\<close>

theorem inform_calls_not_after_apply:
  "calls (snd (play_game (Suc (Suc 0)) abc False []
      (toy_world [Agent first_bot, Agent first_bot] []))) =
     [Classify [], Inform 1 [] 0 0, Apply [] 0, Classify [0], Inform 0 [0] 1 0, Apply [0] 0]
   \<and> apply_action abc [] 0 \<noteq> []
   \<and> \<not> informed_after_apply abc None (calls (snd (play_game (Suc (Suc 0)) abc False []
      (toy_world [Agent first_bot, Agent first_bot] []))))"
  by (simp add: run_defs abc_sel)

text \<open>
  Claim C2, as the code has it. For every ply of the main loop, \<open>inform_action\<close> is called
  exactly once on the bot of every index other than \<open>current_player\<close> and not on the bot
  at that index; at a chance node \<open>current_player\<close> is negative, so every bot is called.
  For every ply of the forced opening it is called exactly once on every bot, the one of
  the acting seat included. The calls counted are calls made: the bots at the end of the
  opening, and at the end of the loop, are the bots of the start after each logged call
  has been carried out on the bot of its index, in the order of the log (an agent's
  memory \<open>m\<close> becoming \<open>inform_action ag m s p a\<close>), and the informing loop of one ply
  does this to exactly the bots it does not skip.
\<close>

theorem inform_calls_counted:
  "informs_counted everyone (length (bots w))
     (drop (length (calls w)) (calls (snd (play_opening g la s h w))))
   \<and> informs_counted (others g) (length (bots w))
     (drop (length (calls w)) (calls (snd (play_loop fuel g s h w))))
   \<and> bots (snd (play_opening g la s h w)) =
       foldl (replay_step g) (bots w)
         (drop (length (calls w)) (calls (snd (play_opening g la s h w))))
   \<and> bots (snd (play_loop fuel g s h w)) =
       foldl (replay_step g) (bots w)
         (drop (length (calls w)) (calls (snd (play_loop fuel g s h w))))
   \<and> bots (inform_bots skip s p a w) =
       map (\<lambda>(j, b). if skip j then b else informed b s p a) (enumerate 0 (bots w))"
proof (intro conjI)
  let ?n = "length (bots w)"
  obtain r w' where op: "play_opening g la s h w = (r, w')"
    by (cases "play_opening g la s h w")
  from opening_shape [OF op] obtain ps where
    "calls w' = calls w @ concat (map (opening_block g ?n) ps)" by blast
  then show "informs_counted everyone ?n
     (drop (length (calls w)) (calls (snd (play_opening g la s h w))))"
    by (simp add: informs_counted_def op foldl_blocks count_opening_block)
  from opening_bots [OF op] obtain ext where
    "calls w' = calls w @ ext" "bots w' = foldl (replay_step g) (bots w) ext" by blast
  then show "bots (snd (play_opening g la s h w)) =
       foldl (replay_step g) (bots w)
         (drop (length (calls w)) (calls (snd (play_opening g la s h w))))"
    by (simp add: op)
next
  let ?n = "length (bots w)"
  obtain r w' where lp: "play_loop fuel g s h w = (r, w')"
    by (cases "play_loop fuel g s h w")
  from loop_shape [OF lp] obtain ps tl where
    c: "calls w' = calls w @ concat (map (loop_block g ?n) ps) @ tl"
    and tl: "tl = [] \<or> (\<exists>t. tl = [Classify t])" by blast
  have "foldl (count_step (others g) ?n) (Some []) tl = Some []"
    using tl by (auto simp: count_step_def)
  then show "informs_counted (others g) ?n
     (drop (length (calls w)) (calls (snd (play_loop fuel g s h w))))"
    by (simp add: informs_counted_def lp c foldl_blocks count_loop_block)
  from loop_bots [OF lp] obtain ext where
    "calls w' = calls w @ ext" "bots w' = foldl (replay_step g) (bots w) ext" by blast
  then show "bots (snd (play_loop fuel g s h w)) =
       foldl (replay_step g) (bots w)
         (drop (length (calls w)) (calls (snd (play_loop fuel g s h w))))"
    by (simp add: lp)
next
  show "bots (inform_bots skip s p a w) =
       map (\<lambda>(j, b). if skip j then b else informed b s p a) (enumerate 0 (bots w))"
    by (rule inform_bots_map)
qed

theorem inform_calls_counted_witness:
  "calls (snd (play_opening abc [''B''] [] [] (toy_world [Agent first_bot, Agent first_bot] [])))
     = [Inform 0 [] 0 1, Inform 1 [] 0 1, Apply [] 1]
   \<and> informs_counted everyone 2
       ([Inform 0 [] 0 1, Inform 1 [] 0 1, Apply [] 1] :: (nat list, nat) event list)
   \<and> calls (snd (play_loop (Suc (Suc 0)) abc [] []
        (toy_world [Agent first_bot, Agent first_bot] [])))
     = [Classify [], Inform 1 [] 0 0, Apply [] 0, Classify [0], Inform 0 [0] 1 0, Apply [0] 0]
   \<and> informs_counted (others abc) 2
       ([Classify [], Inform 1 [] 0 0, Apply [] 0, Classify [0], Inform 0 [0] 1 0, Apply [0] 0]
          :: (nat list, nat) event list)
   \<and> bots (snd (play_opening abc [''B''] [] [] (toy_world [Agent first_bot, Agent first_bot] [])))
     = [Agent (first_bot\<lparr>mem := 1\<rparr>), Agent (first_bot\<lparr>mem := 1\<rparr>)]
   \<and> foldl (replay_step abc) [Agent first_bot, Agent first_bot]
        [Inform 0 [] 0 1, Inform 1 [] 0 1, Apply [] 1]
     = [Agent (first_bot\<lparr>mem := 1\<rparr>), Agent (first_bot\<lparr>mem := 1\<rparr>)]
   \<and> bots (snd (play_loop (Suc (Suc 0)) abc [] []
        (toy_world [Agent first_bot, Agent first_bot] [])))
     = [Agent (first_bot\<lparr>mem := 2\<rparr>), Agent (first_bot\<lparr>mem := 2\<rparr>)]
   \<and> foldl (replay_step abc) [Agent first_bot, Agent first_bot]
        [Classify [], Inform 1 [] 0 0, Apply [] 0, Classify [0], Inform 0 [0] 1 0, Apply [0] 0]
     = [Agent (first_bot\<lparr>mem := 2\<rparr>), Agent (first_bot\<lparr>mem := 2\<rparr>)]"
  using inform_calls_counted [where w = "toy_world [Agent first_bot, Agent first_bot] []" and g = abc
      and la = "[''B'']" and s = "[]" and h = "[]" and fuel = "Suc (Suc 0)"
      and skip = "\<lambda>i. False" and p = 0 and a = 0]
  by (simp add: run_defs abc_sel numeral_2_eq_2 replay_step_def informed_def acted_def)

text \<open>
  Against claim C2 as stated: with the forced opening label B, seat 0 is the acting seat
  of the first ply and its bot is informed of it all the same.
\<close>

theorem opening_informs_acting_seat:
  "calls (snd (play_game (Suc (Suc 0)) abc False [''B'']
      (toy_world [Agent first_bot, Agent first_bot] []))) =
     [Inform 0 [] 0 1, Inform 1 [] 0 1, Apply [] 1, Classify [1], Inform 0 [1] 1 0, Apply [1] 0]
   \<and> current_player abc [] = 0
   \<and> \<not> informs_counted (others abc) 2 (calls (snd (play_game (Suc (Suc 0)) abc False [''B'']
      (toy_world [Agent first_bot, Agent first_bot] []))))"
  by (simp add: run_defs abc_sel check_defs upt_conv_Cons)

subsection \<open>Simultaneous nodes\<close>

text \<open>
  Claim C7, as the code has it. At a state that is not terminal, not a chance node and is
  a simultaneous node, an iteration of the main loop ends the game with the
  \<open>ValueError\<close>: nothing but the classification has happened (no bot was asked, nothing
  was read or sampled, no action was applied, no history is returned), and the session
  does not catch the error. So no ply that the main loop applies, in any run and for
  any fuel, is applied at a simultaneous node.
\<close>

theorem simultaneous_node_fails_fast:
  "(\<not> is_terminal g s \<and> \<not> is_chance_node g s \<and> is_simultaneous_node g s \<longrightarrow>
      play_loop (Suc fuel) g s history w =
        (Some (Inl (ValueError ''Game cannot have simultaneous nodes.'')),
         w\<lparr>calls := calls w @ [Classify s]\<rparr>)
      \<and> session_end F (Some (Inl (ValueError ''Game cannot have simultaneous nodes.'')), ss) =
          Some (Inl (ValueError ''Game cannot have simultaneous nodes.'')))
   \<and> list_all (\<lambda>x. is_chance_node g (fst x) \<or> \<not> is_simultaneous_node g (fst x))
       (applied (drop (length (calls w)) (calls (snd (play_loop fuel g s history w)))))"
proof (intro conjI impI)
  obtain r w' where lp: "play_loop fuel g s history w = (r, w')"
    by (cases "play_loop fuel g s history w")
  from loop_bots [OF lp] obtain ext where
    "calls w' = calls w @ ext"
    "list_all (\<lambda>x. is_chance_node g (fst x) \<or> \<not> is_simultaneous_node g (fst x)) (applied ext)"
    by blast
  then show "list_all (\<lambda>x. is_chance_node g (fst x) \<or> \<not> is_simultaneous_node g (fst x))
       (applied (drop (length (calls w)) (calls (snd (play_loop fuel g s history w)))))"
    by (simp add: lp)
qed (simp_all add: log_call_def session_end_def)

theorem simultaneous_node_fails_fast_witness:
  "\<not> is_terminal sim [] \<and> \<not> is_chance_node sim [] \<and> is_simultaneous_node sim []
   \<and> play_loop (Suc 0) sim [] [] (toy_world [Agent first_bot, Agent first_bot] []) =
     (Some (Inl (ValueError ''Game cannot have simultaneous nodes.'')),
      (toy_world [Agent first_bot, Agent first_bot] [])\<lparr>calls := [Classify []]\<rparr>)
   \<and> applied (calls (snd (play_loop (Suc (Suc 0)) abc [] []
        (toy_world [Agent first_bot, Agent first_bot] [])))) = [([], 0), ([0], 0)]
   \<and> list_all (\<lambda>x. is_chance_node abc (fst x) \<or> \<not> is_simultaneous_node abc (fst x))
        ([([], 0), ([0], 0)] :: (nat list \<times> nat) list)"
  using simultaneous_node_fails_fast [where g = sim and s = "[]" and fuel = 0 and history = "[]"
      and w = "toy_world [Agent first_bot, Agent first_bot] []" and F = toy_flags
      and ss = "session_init [Agent first_bot] [] (const_rng 0) (const_rng 0)"]
    simultaneous_node_fails_fast [where g = abc and s = "[]" and fuel = "Suc (Suc 0)" and history = "[]"
      and w = "toy_world [Agent first_bot, Agent first_bot] []" and F = toy_flags
      and ss = "session_init [Agent first_bot] [] (const_rng 0) (const_rng 0)"]
  by (simp add: sim_sel abc_sel run_defs)

text \<open>
  Against claim C7 as stated: the forced opening resolves, records and applies its labels
  with no classification of the state. In the game \<open>sim\<close> the two opening labels are
  applied at simultaneous nodes, the game completes and the session reports it.
\<close>

theorem opening_applies_at_simultaneous_nodes:
  "\<not> is_chance_node sim [] \<and> is_simultaneous_node sim []
   \<and> \<not> is_chance_node sim [0] \<and> is_simultaneous_node sim [0]
   \<and> fst (play_game (Suc 0) sim False [''A'', ''A'']
        (toy_world [Agent first_bot, Agent first_bot] []))
       = Some (Inr ([1, - 1], [''A'', ''A'']))
   \<and> applied (calls (snd (play_game (Suc 0) sim False [''A'', ''A'']
        (toy_world [Agent first_bot, Agent first_bot] [])))) = [([], 0), ([0], 0)]
   \<and> main (Suc 0) sim (toy_flags\<lparr>num_games := 1\<rparr>) toy_lib [''prog'', ''A'', ''A''] []
        (const_rng 0) (const_rng 0)
       = Some (Inr \<lparr>games_played = 1, distinct_games = 1, players = (''random'', ''random''),
                    wins = [1, 0], total_returns = [1, - 1]\<rparr>)"
  by (simp add: main_defs run_defs sim_sel)

section \<open>The session controller\<close>

text \<open>
  Claim C10. When the number of games is 0 the loop body never runs, and the session
  reports one game played: \<open>game_num\<close> keeps its initial value 0 and the report prints
  \<open>game_num + 1\<close>.
\<close>

theorem zero_games_reports_one:
  "num_players g \<le> 2 \<Longrightarrow> init_bot L F (player1 F) g 0 = Inr b0 \<Longrightarrow>
   init_bot L F (player2 F) g 1 = Inr b1 \<Longrightarrow> num_games F = 0 \<Longrightarrow>
   main fuel g F L argv inp np py =
     Some (Inr \<lparr>games_played = 1, distinct_games = 0, players = (player1 F, player2 F),
                wins = [0, 0], total_returns = [0, 0]\<rparr>)"
  by (simp add: main_def session_init_def session_end_def final_report_def)

theorem zero_games_reports_one_witness:
  "num_players abc \<le> 2
   \<and> init_bot toy_lib (toy_flags\<lparr>num_games := 0\<rparr>) ''random'' abc 0 = Inr (Agent first_bot)
   \<and> init_bot toy_lib (toy_flags\<lparr>num_games := 0\<rparr>) ''random'' abc 1 = Inr (Agent first_bot)
   \<and> main 0 abc (toy_flags\<lparr>num_games := 0\<rparr>) toy_lib [''prog''] [] (const_rng 0) (const_rng 0) =
     Some (Inr \<lparr>games_played = 1, distinct_games = 0, players = (''random'', ''random''),
                wins = [0, 0], total_returns = [0, 0]\<rparr>)"
  using zero_games_reports_one [of abc toy_lib "toy_flags\<lparr>num_games := 0\<rparr>" "Agent first_bot"
      "Agent first_bot" 0 "[''prog'']" "[]" "const_rng 0" "const_rng 0"]
  by (simp add: abc_sel init_bot_def toy_flags_def toy_lib_def)

lemma inform_bots_stdin: "stdin (inform_bots skip s p a w) = stdin w"
  by (simp add: inform_bots_def split_beta)

lemma session_init_sel:
  "histories (session_init bs inp np py) = []"
  "overall_returns (session_init bs inp np py) = [0, 0]"
  "overall_wins (session_init bs inp np py) = [0, 0]"
  "game_num (session_init bs inp np py) = 0"
  "wld (session_init bs inp np py) =
     \<lparr>bots = bs, stdin = inp, np_global = np, py_global = py, calls = []\<rparr>"
  by (simp_all add: session_init_def)

lemma opening_unresolved:
  "unresolved g s ls = Some (n, l) \<Longrightarrow>
   fst (play_opening g ls s h w) = Inl (SystemExit (''Invalid action: '' @ l))
   \<and> length (applied (calls (snd (play_opening g ls s h w)))) = length (applied (calls w)) + n
   \<and> stdin (snd (play_opening g ls s h w)) = stdin w"
proof (induction ls arbitrary: s h w n)
  case Nil
  then show ?case by simp
next
  case (Cons x ls)
  show ?case
  proof (cases "get_action g s x")
    case None
    with Cons.prems show ?thesis by simp
  next
    case (Some a)
    with Cons.prems obtain m where
      u: "unresolved g (apply_action g s a) ls = Some (m, l)" and n: "n = Suc m"
      by (auto split: option.splits)
    let ?w1 = "log_call (Apply s a) (inform_bots (\<lambda>i. False) s (current_player g s) a w)"
    have a1: "length (applied (calls ?w1)) = Suc (length (applied (calls w)))"
      by (simp add: log_call_def inform_bots_calls applied_append applied_informs)
    have s1: "stdin ?w1 = stdin w" by (simp add: log_call_def inform_bots_stdin)
    from Cons.IH [OF u, of "h @ [x]" ?w1] Some a1 s1 n show ?thesis by simp
  qed
qed

lemma for_games_append:
  "for_games fuel g F argv (xs @ ys) ss =
     (case for_games fuel g F argv xs ss of
        (Some (Inr u), ss') \<Rightarrow> for_games fuel g F argv ys ss'
      | (Some (Inl e), ss') \<Rightarrow> (Some (Inl e), ss')
      | (None, ss') \<Rightarrow> (None, ss'))"
proof (induction xs arbitrary: ss)
  case Nil
  show ?case by simp
next
  case (Cons k ks)
  let ?ss2 = "substitute_human (ss\<lparr>game_num := int k\<rparr>)"
  obtain r w where pg: "play_game fuel g (random_first F) (drop 1 argv) (wld ?ss2) = (r, w)"
    by (cases "play_game fuel g (random_first F) (drop 1 argv) (wld ?ss2)")
  show ?case
  proof (cases r)
    case None
    with pg show ?thesis by (simp add: Let_def)
  next
    case (Some x)
    show ?thesis
    proof (cases x)
      case (Inl e)
      with pg Some show ?thesis by (simp add: Let_def)
    next
      case (Inr rh)
      obtain rets hist where rh: "rh = (rets, hist)" by (cases rh)
      obtain t ss3 where
        ta: "tally 0 rets (?ss2\<lparr>wld := w, histories := bump (join hist) (histories ?ss2)\<rparr>)
               = (t, ss3)"
        by (cases "tally 0 rets (?ss2\<lparr>wld := w, histories := bump (join hist) (histories ?ss2)\<rparr>)")
      show ?thesis
      proof (cases t)
        case None
        with pg Some Inr rh ta Cons.IH [of ss3] show ?thesis by (simp add: Let_def)
      next
        case (Some e)
        with pg \<open>r = Some x\<close> Inr rh ta show ?thesis by (simp add: Let_def)
      qed
    qed
  qed
qed

text \<open>
  Claim C6. When a label of the forced opening does not resolve (the first such label
  being \<open>l\<close>, at position \<open>n\<close>), a session that plays at least one game ends in its
  first game with \<open>SystemExit\<close> and the message \<open>Invalid action\<close>: the exit is not
  caught, no report is printed, exactly the \<open>n\<close> plies before the label have been
  applied, nothing has been read from standard input, and the counters of the session
  are as they were initialised (no history, no returns, no wins).
\<close>

theorem unresolved_opening_label_aborts:
  assumes "unresolved g (new_initial_state g) (drop 1 argv) = Some (n, l)"
    and "\<not> random_first F" and "0 < num_games F" and "num_players g \<le> 2"
    and "init_bot L F (player1 F) g 0 = Inr b0" and "init_bot L F (player2 F) g 1 = Inr b1"
  shows "main fuel g F L argv inp np py = Some (Inl (SystemExit (''Invalid action: '' @ l)))
    \<and> fst (for_games fuel g F argv [0..<nat (num_games F)] (session_init [b0, b1] inp np py))
        = Some (Inl (SystemExit (''Invalid action: '' @ l)))
    \<and> histories (snd (for_games fuel g F argv [0..<nat (num_games F)]
          (session_init [b0, b1] inp np py))) = []
    \<and> overall_returns (snd (for_games fuel g F argv [0..<nat (num_games F)]
          (session_init [b0, b1] inp np py))) = [0, 0]
    \<and> overall_wins (snd (for_games fuel g F argv [0..<nat (num_games F)]
          (session_init [b0, b1] inp np py))) = [0, 0]
    \<and> length (applied (calls (wld (snd (for_games fuel g F argv [0..<nat (num_games F)]
          (session_init [b0, b1] inp np py)))))) = n
    \<and> stdin (wld (snd (for_games fuel g F argv [0..<nat (num_games F)]
          (session_init [b0, b1] inp np py)))) = inp"
proof -
  let ?ss = "session_init [b0, b1] inp np py"
  let ?w = "wld ?ss"
  let ?e = "SystemExit (''Invalid action: '' @ l)"
  have up: "[0..<nat (num_games F)] = 0 # [1..<nat (num_games F)]"
    using assms(3) by (simp add: upt_conv_Cons)
  obtain r w' where op: "play_opening g (drop 1 argv) (new_initial_state g) [] ?w = (r, w')"
    by (cases "play_opening g (drop 1 argv) (new_initial_state g) [] ?w")
  from opening_unresolved [OF assms(1), of "[]" ?w] op
  have r: "r = Inl ?e" and a: "length (applied (calls w')) = n" and i: "stdin w' = inp"
    by (simp_all add: session_init_def)
  have pg: "play_game fuel g (random_first F) (drop 1 argv) ?w = (Some (Inl ?e), w')"
    using assms(2) op r by (simp add: play_game_def first_actions_def)
  have fg: "for_games fuel g F argv [0..<nat (num_games F)] ?ss
      = (Some (Inl ?e), ?ss\<lparr>game_num := 0, wld := w'\<rparr>)"
    unfolding up using pg by (simp add: Let_def substitute_human_def)
  have "main fuel g F L argv inp np py = Some (Inl ?e)"
    using assms(4,5,6) by (simp add: main_def fg session_end_def)
  then show ?thesis using a i by (simp add: fg session_init_sel)
qed

theorem unresolved_opening_label_aborts_witness:
  "unresolved abc (new_initial_state abc) (drop 1 [''prog'', ''B'', ''D'']) = Some (1, ''D'')
   \<and> \<not> random_first toy_flags \<and> 0 < num_games toy_flags \<and> num_players abc \<le> 2
   \<and> init_bot toy_lib toy_flags (player1 toy_flags) abc 0 = Inr (Agent first_bot)
   \<and> init_bot toy_lib toy_flags (player2 toy_flags) abc 1 = Inr (Agent first_bot)
   \<and> main (Suc (Suc 0)) abc toy_flags toy_lib [''prog'', ''B'', ''D''] [] (const_rng 0) (const_rng 0)
       = Some (Inl (SystemExit ''Invalid action: D''))"
  using unresolved_opening_label_aborts [where g = abc and argv = "[''prog'', ''B'', ''D'']" and n = 1 and l = "''D''"
      and F = toy_flags and L = toy_lib and ?b0.0 = "Agent first_bot" and ?b1.0 = "Agent first_bot"
      and fuel = "Suc (Suc 0)" and inp = "[]" and np = "const_rng 0" and py = "const_rng 0"]
  by (simp add: abc_sel get_action_def init_bot_def toy_flags_def toy_lib_def)

text \<open>
  Claim C5. When the session is to play more than two games (five in the scenario), games
  0 and 1 complete, and game 2, played with the \<open>HumanBot\<close> put at seat 1, raises
  \<open>EOFError\<close>, then \<open>main\<close> returns normally with its report: two games played, and the
  distinct histories, wins and returns exactly as they stood after game 1.
\<close>

theorem eof_in_game_two_reports_two:
  assumes "2 < num_games F" and "num_players g \<le> 2"
    and "init_bot L F (player1 F) g 0 = Inr b0" and "init_bot L F (player2 F) g 1 = Inr b1"
    and "for_games fuel g F argv [0, 1] (session_init [b0, b1] inp np py) = (Some (Inr ()), ss2)"
    and "play_game fuel g (random_first F) (drop 1 argv)
           ((wld ss2)\<lparr>bots := (bots (wld ss2))[1 := HumanBot]\<rparr>) = (Some (Inl EOFError), w3)"
  shows "main fuel g F L argv inp np py =
     Some (Inr \<lparr>games_played = 2, distinct_games = length (histories ss2),
                players = (player1 F, player2 F), wins = overall_wins ss2,
                total_returns = overall_returns ss2\<rparr>)"
proof -
  have up: "[0..<nat (num_games F)] = [0, 1] @ 2 # [3..<nat (num_games F)]"
  proof -
    have "[0..<nat (num_games F)] = 0 # 1 # 2 # [3..<nat (num_games F)]"
      using assms(1) by (simp add: upt_conv_Cons numeral_3_eq_3 numeral_2_eq_2)
    then show ?thesis by simp
  qed
  have "for_games fuel g F argv (2 # [3..<nat (num_games F)]) ss2 =
      (Some (Inl EOFError),
       ss2\<lparr>game_num := 2, wld := w3\<rparr>)"
    using assms(6) by (simp add: Let_def substitute_human_def)
  then have "for_games fuel g F argv [0..<nat (num_games F)] (session_init [b0, b1] inp np py) =
      (Some (Inl EOFError), ss2\<lparr>game_num := 2, wld := w3\<rparr>)"
    unfolding up for_games_append assms(5) by simp
  then show ?thesis
    using assms(2,3,4) by (simp add: main_def session_end_def final_report_def)
qed

text \<open>
  The scenario on the game \<open>abc\<close>: five games, two bots that play action 0, standard
  input closed. Game 2 stops at the prompt of seat 1.
\<close>

theorem eof_in_game_two_reports_two_witness:
  "2 < num_games toy_flags \<and> num_players abc \<le> 2
   \<and> init_bot toy_lib toy_flags (player1 toy_flags) abc 0 = Inr (Agent first_bot)
   \<and> init_bot toy_lib toy_flags (player2 toy_flags) abc 1 = Inr (Agent first_bot)
   \<and> fst (for_games (Suc (Suc 0)) abc toy_flags [''prog''] [0, 1]
        (session_init [Agent first_bot, Agent first_bot] [] (const_rng 0) (const_rng 0)))
       = Some (Inr ())
   \<and> main (Suc (Suc 0)) abc toy_flags toy_lib [''prog''] [] (const_rng 0) (const_rng 0) =
     Some (Inr \<lparr>games_played = 2, distinct_games = 1, players = (''random'', ''random''),
                wins = [2, 0], total_returns = [2, - 2]\<rparr>)"
proof -
  let ?ss0 = "session_init [Agent first_bot, Agent first_bot] [] (const_rng 0) (const_rng 0)
                :: (nat list, nat, nat) session"
  let ?r2 = "for_games (Suc (Suc 0)) abc toy_flags [''prog''] [0, 1] ?ss0"
  let ?g3 = "play_game (Suc (Suc 0)) abc (random_first toy_flags) (drop 1 [''prog''])
           ((wld (snd ?r2))\<lparr>bots := (bots (wld (snd ?r2)))[1 := HumanBot]\<rparr>)"
  have f: "fst ?r2 = Some (Inr ())"
    by (simp add: main_defs run_defs abc_sel)
  have s: "histories (snd ?r2) = [(''A A'', 2)] \<and> overall_wins (snd ?r2) = [2, 0]
      \<and> overall_returns (snd ?r2) = [2, - 2]"
    by (simp add: main_defs run_defs abc_sel)
  have e: "fst ?g3 = Some (Inl EOFError)"
    by (simp add: main_defs run_defs abc_sel)
  have h5: "?r2 = (Some (Inr ()), snd ?r2)" using f by (simp add: prod_eq_iff)
  have h6: "?g3 = (Some (Inl EOFError), snd ?g3)" using e by (simp add: prod_eq_iff)
  have i1: "init_bot toy_lib toy_flags (player1 toy_flags) abc 0 = Inr (Agent first_bot)"
    and i2: "init_bot toy_lib toy_flags (player2 toy_flags) abc 1 = Inr (Agent first_bot)"
    by (simp_all add: init_bot_def toy_flags_def toy_lib_def)
  have n: "2 < num_games toy_flags" and p: "num_players abc \<le> 2"
    by (simp_all add: toy_flags_def abc_sel)
  from eof_in_game_two_reports_two [OF n p i1 i2 h5 h6] s f n p i1 i2
  show ?thesis by (simp add: toy_flags_def)
qed

text \<open>
  Claim C4 fails on the code. Two runs of the same session with \<open>seed = Some 42\<close> on the
  game \<open>coin\<close>, differing only in the state of numpy's global generator when the
  process starts: the histories and the results differ. \<open>FLAGS.seed\<close> seeds the
  generators handed to the bots in \<open>_init_bot\<close> and nothing else; the chance node is
  sampled from numpy's global generator.
\<close>

theorem seed_misses_chance_sampling:
  "seed (toy_flags\<lparr>num_games := 1\<rparr>) = Some 42
   \<and> fst (play_game (Suc 0) coin False []
        ((toy_world [Agent first_bot, Agent first_bot] [])\<lparr>np_global := const_rng 0\<rparr>))
       = Some (Inr ([1, - 1], [''A'']))
   \<and> fst (play_game (Suc 0) coin False []
        ((toy_world [Agent first_bot, Agent first_bot] [])\<lparr>np_global := const_rng (2 ^ 52)\<rparr>))
       = Some (Inr ([- 1, 1], [''B'']))
   \<and> main (Suc 0) coin (toy_flags\<lparr>num_games := 1\<rparr>) toy_lib [''prog''] []
        (const_rng 0) (const_rng 0)
       = Some (Inr \<lparr>games_played = 1, distinct_games = 1, players = (''random'', ''random''),
                    wins = [1, 0], total_returns = [1, - 1]\<rparr>)
   \<and> main (Suc 0) coin (toy_flags\<lparr>num_games := 1\<rparr>) toy_lib [''prog''] []
        (const_rng (2 ^ 52)) (const_rng 0)
       = Some (Inr \<lparr>games_played = 1, distinct_games = 1, players = (''random'', ''random''),
                    wins = [0, 1], total_returns = [- 1, 1]\<rparr>)"
  by (simp add: main_defs run_defs coin_sel)

end
